theory Spec2Isabelle
  imports Complex_Main
begin

section \<open>Blokus Builder: build parameters and their validation\<close>

text \<open>
  The embedding follows \<^verbatim>\<open>src/blokus_builder.py\<close>. Lengths are Python floats in the
  source; they are modelled as real numbers, so every comparison and sum below is the
  exact one (no rounding). Python ints are \<^typ>\<open>int\<close>.
\<close>

datatype export_mode = PER_PIECE | PER_COLOR | BOARD_TILES

text \<open>The property group \<^verbatim>\<open>BLK_Properties\<close>, field by field.\<close>

record BLK_Properties =
  cell :: real
  clear :: real
  board_t :: real
  rib_w :: real
  rib_h :: real
  frame_w :: real
  piece_t :: real
  bevel_top :: real
  bevel_bottom :: real
  split_x :: int
  split_y :: int
  dowel_d :: real
  dowel_len :: real
  dowel_clear :: real
  export_dir :: string
  export_mode :: export_mode
  apply_transforms :: bool
  color_red :: bool
  color_blue :: bool
  color_yellow :: bool
  color_green :: bool
  make_board :: bool
  make_pieces :: bool
  keep_cutters :: bool
  layout_gap :: real

text \<open>The \<^verbatim>\<open>default=\<close> value of every property of \<^verbatim>\<open>BLK_Properties\<close>.\<close>

definition default_params :: BLK_Properties where
  "default_params =
     \<lparr> cell = 20, clear = 0.20, board_t = 1.8, rib_w = 1.2, rib_h = 0.9, frame_w = 8,
       piece_t = 3.2, bevel_top = 0.4, bevel_bottom = 0.2, split_x = 2, split_y = 2,
       dowel_d = 6, dowel_len = 4, dowel_clear = 0.2, export_dir = ''//exports'',
       export_mode = PER_PIECE, apply_transforms = True,
       color_red = True, color_blue = True, color_yellow = True, color_green = True,
       make_board = True, make_pieces = True, keep_cutters = False, layout_gap = 2 \<rparr>"

text \<open>
  The four messages of \<^verbatim>\<open>validate_params\<close>. Two of them are f-strings that print a
  float with two decimals; the constructor carries the number that is printed.
\<close>

datatype message =
    RemainingWall real
  | ClearanceNegative
  | ClearanceLarge real
  | GrooveNotWider

text \<open>
  \<^verbatim>\<open>validate_params(p)\<close>: \<^verbatim>\<open>msgs\<close> starts empty, each of the four tests appends its
  message in this order, and the result is \<^verbatim>\<open>(len(msgs) == 0, msgs)\<close>.
\<close>

definition validate_params :: "BLK_Properties \<Rightarrow> bool \<times> message list" where
  "validate_params p =
     (let groove_w = rib_w p + 2 * clear p;
          groove_d = rib_h p + 0.25;
          remaining = piece_t p - groove_d;
          msgs = [];
          msgs = (if remaining < 1.6 then msgs @ [RemainingWall remaining] else msgs);
          msgs = (if clear p < 0 then msgs @ [ClearanceNegative] else msgs);
          msgs = (if clear p > 0.35 then msgs @ [ClearanceLarge (clear p)] else msgs);
          msgs = (if groove_w \<le> rib_w p then msgs @ [GrooveNotWider] else msgs)
      in (length msgs = 0, msgs))"

text \<open>
  What a generate operator does with the result (\<^verbatim>\<open>BLK_OT_GenerateBoard.execute\<close>,
  \<^verbatim>\<open>BLK_OT_GeneratePieces.execute\<close>): when \<^verbatim>\<open>ok\<close> is false every message is reported
  as an error and the operator returns \<^verbatim>\<open>CANCELLED\<close> before any geometry is built.
\<close>

datatype operator_result = FINISHED | CANCELLED

definition params_gate :: "BLK_Properties \<Rightarrow> operator_result option" where
  "params_gate p = (if \<not> fst (validate_params p) then Some CANCELLED else None)"

section \<open>Outline extractor\<close>

text \<open>
  A cell is a pair of Python ints; a vertex is a grid point; an edge is a pair of
  vertices.
\<close>

type_synonym grid_cell = "int \<times> int"
type_synonym vertex = "int \<times> int"
type_synonym edge = "vertex \<times> vertex"

text \<open>
  The catalogue \<^verbatim>\<open>PIECES\<close>: a dict literal, kept as the list of its items in
  insertion order.
\<close>

definition PIECES :: "(string \<times> grid_cell list) list" where
  "PIECES =
    [(''I1'', [(0, 0)]),
     (''I2'', [(0, 0), (1, 0)]),
     (''I3'', [(0, 0), (1, 0), (2, 0)]),
     (''L3'', [(0, 0), (1, 0), (1, 1)]),
     (''I4'', [(0, 0), (1, 0), (2, 0), (3, 0)]),
     (''L4'', [(0, 0), (1, 0), (2, 0), (2, 1)]),
     (''T4'', [(0, 0), (1, 0), (2, 0), (1, 1)]),
     (''O4'', [(0, 0), (1, 0), (0, 1), (1, 1)]),
     (''S4'', [(0, 0), (1, 0), (1, 1), (2, 1)]),
     (''F5'', [(1, 0), (2, 0), (0, 1), (1, 1), (1, 2)]),
     (''I5'', [(0, 0), (1, 0), (2, 0), (3, 0), (4, 0)]),
     (''L5'', [(0, 0), (1, 0), (2, 0), (3, 0), (3, 1)]),
     (''N5'', [(0, 0), (1, 0), (1, 1), (2, 1), (3, 1)]),
     (''P5'', [(0, 0), (1, 0), (0, 1), (1, 1), (0, 2)]),
     (''T5'', [(0, 0), (1, 0), (2, 0), (1, 1), (1, 2)]),
     (''U5'', [(0, 0), (2, 0), (0, 1), (1, 1), (2, 1)]),
     (''V5'', [(0, 0), (0, 1), (0, 2), (1, 2), (2, 2)]),
     (''W5'', [(0, 0), (0, 1), (1, 1), (1, 2), (2, 2)]),
     (''X5'', [(1, 0), (0, 1), (1, 1), (2, 1), (1, 2)]),
     (''Y5'', [(0, 0), (1, 0), (2, 0), (3, 0), (1, 1)]),
     (''Z5'', [(0, 0), (1, 0), (1, 1), (1, 2), (2, 2)])]"

text \<open>
  \<^verbatim>\<open>cells_to_outline\<close>, first half. The four edges of the unit square at a cell
  (bottom, right, top, left); \<^verbatim>\<open>tuple(sorted(e))\<close> orders the two end points by
  Python's tuple order (first component, then second); \<^verbatim>\<open>edge_count\<close> is a
  \<^verbatim>\<open>defaultdict(int)\<close>, kept as an association list in insertion order, so that
  \<^verbatim>\<open>edge_count.items()\<close> is the list itself; \<^verbatim>\<open>boundary\<close> keeps the keys counted once.
\<close>

definition cell_edges :: "grid_cell \<Rightarrow> edge list" where
  "cell_edges c =
     (case c of (cx, cy) \<Rightarrow>
        [((cx, cy), (cx + 1, cy)),
         ((cx + 1, cy), (cx + 1, cy + 1)),
         ((cx, cy + 1), (cx + 1, cy + 1)),
         ((cx, cy), (cx, cy + 1))])"

definition tuple_less :: "vertex \<Rightarrow> vertex \<Rightarrow> bool" where
  "tuple_less a b = (fst a < fst b \<or> (fst a = fst b \<and> snd a < snd b))"

definition sorted_edge :: "edge \<Rightarrow> edge" where
  "sorted_edge e = (case e of (a, b) \<Rightarrow> if tuple_less b a then (b, a) else (a, b))"

fun count_incr :: "edge \<Rightarrow> (edge \<times> int) list \<Rightarrow> (edge \<times> int) list" where
  "count_incr k [] = [(k, 0 + 1)]"
| "count_incr k ((k', c) # rest) =
     (if k' = k then (k', c + 1) # rest else (k', c) # count_incr k rest)"

definition edge_count :: "grid_cell list \<Rightarrow> (edge \<times> int) list" where
  "edge_count cells =
     fold (\<lambda>c ec. fold (\<lambda>e ec'. count_incr (sorted_edge e) ec') (cell_edges c) ec) cells []"

definition boundary_edges :: "grid_cell list \<Rightarrow> edge list" where
  "boundary_edges cells = map fst (filter (\<lambda>(e, c). c = 1) (edge_count cells))"

text \<open>
  \<^verbatim>\<open>adj\<close> is a \<^verbatim>\<open>defaultdict(list)\<close>: \<^verbatim>\<open>adj[a].append(b)\<close> is \<open>adj_append a b\<close>, and
  reading a key that was never written gives the empty list.
\<close>

fun adj_append :: "vertex \<Rightarrow> vertex \<Rightarrow> (vertex \<times> vertex list) list \<Rightarrow> (vertex \<times> vertex list) list" where
  "adj_append a b [] = [(a, [] @ [b])]"
| "adj_append a b ((k, vs) # rest) =
     (if k = a then (k, vs @ [b]) # rest else (k, vs) # adj_append a b rest)"

definition build_adj :: "edge list \<Rightarrow> (vertex \<times> vertex list) list" where
  "build_adj boundary = fold (\<lambda>(a, b) adj. adj_append b a (adj_append a b adj)) boundary []"

definition adj_get :: "(vertex \<times> vertex list) list \<Rightarrow> vertex \<Rightarrow> vertex list" where
  "adj_get adj v = (case map_of adj v of None \<Rightarrow> [] | Some vs \<Rightarrow> vs)"

text \<open>
  The \<^verbatim>\<open>for nb in adj[current]\<close> loop with its \<^verbatim>\<open>break\<close>: the first neighbour whose
  edge key is not yet in \<^verbatim>\<open>visited_edges\<close>, or \<open>None\<close> when \<^verbatim>\<open>found_next\<close> stays false.
\<close>

definition find_next :: "(vertex \<times> vertex list) list \<Rightarrow> vertex \<Rightarrow> edge set \<Rightarrow> vertex option" where
  "find_next adj current visited_edges =
     find (\<lambda>nb. sorted_edge (current, nb) \<notin> visited_edges) (adj_get adj current)"

text \<open>
  The \<^verbatim>\<open>while True\<close> loop ends: every round marks one more (vertex, neighbour) entry
  of \<^verbatim>\<open>adj\<close> as visited, and \<^verbatim>\<open>adj\<close> is finite.
\<close>

definition unvisited :: "(vertex \<times> vertex list) list \<Rightarrow> edge set \<Rightarrow> (vertex \<times> vertex) set" where
  "unvisited adj visited_edges =
     {(a, b). a \<in> fst ` set adj \<and> b \<in> set (adj_get adj a) \<and> sorted_edge (a, b) \<notin> visited_edges}"

lemma finite_unvisited: "finite (unvisited adj vis)"
proof -
  have "unvisited adj vis \<subseteq> (fst ` set adj) \<times> (\<Union>a \<in> fst ` set adj. set (adj_get adj a))"
    by (auto simp: unvisited_def)
  moreover have "finite ((fst ` set adj) \<times> (\<Union>a \<in> fst ` set adj. set (adj_get adj a)))"
    by simp
  ultimately show ?thesis by (rule finite_subset)
qed

lemma find_next_unvisited:
  assumes "find_next adj current vis = Some nb"
  shows "(current, nb) \<in> unvisited adj vis"
proof -
  from assms have nb: "nb \<in> set (adj_get adj current)" "sorted_edge (current, nb) \<notin> vis"
    by (auto simp: find_next_def find_Some_iff)
  then have "map_of adj current \<noteq> None"
    by (cases "map_of adj current") (auto simp: adj_get_def)
  then have "current \<in> fst ` set adj"
    by (simp add: map_of_eq_None_iff)
  with nb show ?thesis by (simp add: unvisited_def)
qed

function walk :: "(vertex \<times> vertex list) list \<Rightarrow> vertex \<Rightarrow> edge set \<Rightarrow> vertex list \<Rightarrow> vertex list" where
  "walk adj current visited_edges loop =
     (case find_next adj current visited_edges of
        None \<Rightarrow> loop
      | Some nb \<Rightarrow> walk adj nb (insert (sorted_edge (current, nb)) visited_edges) (loop @ [nb]))"
  by pat_completeness auto
termination
proof (relation "measure (\<lambda>(adj, current, vis, loop). card (unvisited adj vis))")
  show "wf (measure (\<lambda>(adj, current, vis, loop). card (unvisited adj vis)))" by simp
next
  fix adj :: "(vertex \<times> vertex list) list" and current :: vertex and visited_edges :: "edge set"
    and loop :: "vertex list" and nb :: vertex
  assume f: "find_next adj current visited_edges = Some nb"
  let ?vis' = "insert (sorted_edge (current, nb)) visited_edges"
  have "(current, nb) \<in> unvisited adj visited_edges" using f by (rule find_next_unvisited)
  moreover have "(current, nb) \<notin> unvisited adj ?vis'" by (simp add: unvisited_def)
  moreover have "unvisited adj ?vis' \<subseteq> unvisited adj visited_edges" by (auto simp: unvisited_def)
  ultimately have "unvisited adj ?vis' \<subset> unvisited adj visited_edges" by blast
  then have "card (unvisited adj ?vis') < card (unvisited adj visited_edges)"
    by (rule psubset_card_mono[OF finite_unvisited])
  then show "((adj, nb, ?vis', loop @ [nb]), (adj, current, visited_edges, loop))
      \<in> measure (\<lambda>(adj, current, vis, loop). card (unvisited adj vis))"
    by simp
qed

text \<open>
  The walk starts at \<^verbatim>\<open>boundary[0][0]\<close> with \<^verbatim>\<open>loop = [start]\<close> and no visited edge;
  \<open>walk_loop\<close> is \<^verbatim>\<open>loop\<close> as the \<^verbatim>\<open>while\<close> leaves it, and \<open>cells_to_outline\<close>
  then drops the last vertex when it equals the first. An empty \<^verbatim>\<open>boundary\<close> returns
  \<^verbatim>\<open>[]\<close> before the walk. The source raises nowhere in this function.
\<close>

declare walk.simps [simp del]

definition walk_loop :: "grid_cell list \<Rightarrow> vertex list" where
  "walk_loop cells =
     (let boundary = boundary_edges cells;
          adj = build_adj boundary
      in case boundary of
           [] \<Rightarrow> []
         | e0 # _ \<Rightarrow> (let start = fst e0 in walk adj start {} [start]))"

definition cells_to_outline :: "grid_cell list \<Rightarrow> vertex list" where
  "cells_to_outline cells =
     (if boundary_edges cells = [] then []
      else (let loop = walk_loop cells
            in if length loop > 1 \<and> last loop = hd loop then butlast loop else loop))"

text \<open>
  Specification side: the edge keys between consecutive vertices of a walk (\<open>steps\<close>),
  the edge keys of a closed polygon (\<open>loop_edges\<close>, the last vertex joined to the
  first), twice the signed area enclosed by a polygon (the shoelace formula), and what
  "a single simple closed polygon with the area of the cells" means for a cell list: the
  walk came back to its start, the closing duplicate was dropped, no vertex repeats, the
  polygon's edges are exactly the boundary edges, and the enclosed area is the number of
  cells.
\<close>

definition steps :: "vertex list \<Rightarrow> edge list" where
  "steps vs = map sorted_edge (zip vs (tl vs))"

definition loop_edges :: "vertex list \<Rightarrow> edge list" where
  "loop_edges vs = map sorted_edge (zip vs (rotate1 vs))"

definition shoelace2 :: "vertex list \<Rightarrow> int" where
  "shoelace2 vs = (\<Sum>((x1, y1), (x2, y2)) \<leftarrow> zip vs (rotate1 vs). x1 * y2 - x2 * y1)"

definition simple_closed_outline :: "grid_cell list \<Rightarrow> bool" where
  "simple_closed_outline cells =
     (let raw = walk_loop cells; outline = cells_to_outline cells
      in length raw > 1 \<and> last raw = hd raw \<and> outline = butlast raw \<and>
         distinct outline \<and>
         set (loop_edges outline) = set (boundary_edges cells) \<and>
         \<bar>shoelace2 outline\<bar> = 2 * int (length cells))"

text \<open>
  The invariant of the walk, for the proofs: the steps of a path avoid the edges already
  visited, no step repeats, and every step goes to a neighbour listed in \<^verbatim>\<open>adj\<close>.
\<close>

definition path_ok :: "(vertex \<times> vertex list) list \<Rightarrow> edge set \<Rightarrow> vertex list \<Rightarrow> bool" where
  "path_ok adj vis vs =
     (set (steps vs) \<inter> vis = {} \<and> distinct (steps vs) \<and>
      (\<forall>(u, v) \<in> set (zip vs (tl vs)). v \<in> set (adj_get adj u)))"

section \<open>Geometry primitives\<close>

text \<open>
  The Python exceptions the modelled code can raise: \<^verbatim>\<open>min\<close>/\<^verbatim>\<open>max\<close> of an empty
  sequence raise \<^verbatim>\<open>ValueError\<close>, integer floor division by zero raises
  \<^verbatim>\<open>ZeroDivisionError\<close>. A function that can raise returns \<open>py_error + 'a\<close>.
\<close>

datatype py_error = ValueError | ZeroDivisionError

type_synonym vec3 = "real \<times> real \<times> real"

text \<open>
  Object names are f-strings over ints (\<^verbatim>\<open>_bar_x_{gx}\<close>, \<^verbatim>\<open>_base_{tile_x}_{tile_y}\<close>,
  \<^verbatim>\<open>_ribX_{gx}\<close>, \<^verbatim>\<open>_frame_left\<close>, \<^verbatim>\<open>_reinforce_h_{i}\<close>,
  \<^verbatim>\<open>_dowel_post_r_{tile_x}_{tile_y}_{di}\<close>, ...): one constructor per format, carrying
  the numbers that are printed.
\<close>

datatype obj_name =
    BarX int | BarY int
  | Base int int
  | RibX int | RibY int
  | FrameLeft | FrameRight | FrameBottom | FrameTop
  | ReinforceH int | ReinforceV int
  | DowelPostR int int nat | DowelHoleL int int nat
  | DowelPostT int int nat | DowelHoleB int int nat

text \<open>
  The two primitives. \<^verbatim>\<open>primitive_cube_add(size=1, location, scale)\<close> followed by
  \<^verbatim>\<open>transform_apply(scale=True)\<close> is a box centred at \<^verbatim>\<open>location\<close> with edge lengths
  \<^verbatim>\<open>scale\<close>; \<^verbatim>\<open>primitive_cylinder_add(radius, depth, location)\<close> is a cylinder along Z.
  \<open>is_hole\<close> is the custom property \<^verbatim>\<open>_is_hole\<close> (absent reads as false).
\<close>

datatype shape = Cube vec3 | Cylinder real real

record mesh_obj =
  obj_name :: obj_name
  location :: vec3
  shape :: shape
  is_hole :: bool

section \<open>Groove cutter builder\<close>

text \<open>
  \<^verbatim>\<open>min(xs)\<close> and \<^verbatim>\<open>max(xs)\<close> on a list of ints.
\<close>

definition py_min :: "int list \<Rightarrow> py_error + int" where
  "py_min xs = (case xs of [] \<Rightarrow> Inl ValueError | x # rest \<Rightarrow> Inr (fold min rest x))"

definition py_max :: "int list \<Rightarrow> py_error + int" where
  "py_max xs = (case xs of [] \<Rightarrow> Inl ValueError | x # rest \<Rightarrow> Inr (fold max rest x))"

text \<open>
  \<^verbatim>\<open>xs = [c[0] for c in cells]\<close>, \<^verbatim>\<open>ys = [c[1] for c in cells]\<close> and the four
  \<^verbatim>\<open>min\<close>/\<^verbatim>\<open>max\<close> calls, in the order of the source. Both
  \<^verbatim>\<open>get_grid_lines_for_piece\<close> and \<^verbatim>\<open>make_groove_cutter\<close> start with these lines.
\<close>

definition bounds :: "grid_cell list \<Rightarrow> py_error + (int \<times> int \<times> int \<times> int)" where
  "bounds cells =
     (let xs = map fst cells; ys = map snd cells
      in case py_min xs of Inl e \<Rightarrow> Inl e | Inr min_x \<Rightarrow>
         case py_max xs of Inl e \<Rightarrow> Inl e | Inr max_x \<Rightarrow>
         case py_min ys of Inl e \<Rightarrow> Inl e | Inr min_y \<Rightarrow>
         case py_max ys of Inl e \<Rightarrow> Inl e | Inr max_y \<Rightarrow>
           Inr (min_x, max_x, min_y, max_y))"

text \<open>
  \<^verbatim>\<open>get_grid_lines_for_piece(cells)\<close>: \<^verbatim>\<open>range(min_x, max_x + 2)\<close> is the list of ints
  from \<open>min_x\<close> to \<open>max_x + 1\<close>.
\<close>

definition get_grid_lines_for_piece :: "grid_cell list \<Rightarrow> py_error + (int list \<times> int list)" where
  "get_grid_lines_for_piece cells =
     (case bounds cells of
        Inl e \<Rightarrow> Inl e
      | Inr (min_x, max_x, min_y, max_y) \<Rightarrow>
          (let x_lines = [min_x ..  max_x + 2 - 1];
               y_lines = [min_y .. max_y + 2 - 1]
           in Inr (x_lines, y_lines)))"

text \<open>
  \<^verbatim>\<open>make_groove_cutter\<close>: one bar per X grid line, then one per Y grid line; the
  function returns \<^verbatim>\<open>None\<close> when \<^verbatim>\<open>bars\<close> is empty, and otherwise the bars joined
  into one object that gets the name \<^verbatim>\<open>name\<close>. The joined object is modelled by the list
  of its bars. The parameter \<^verbatim>\<open>piece_t\<close> is not used by the source.
\<close>

record cutter =
  cutter_name :: string
  bars :: "mesh_obj list"

definition make_groove_cutter ::
  "string \<Rightarrow> grid_cell list \<Rightarrow> real \<Rightarrow> real \<Rightarrow> real \<Rightarrow> real \<Rightarrow> py_error + cutter option" where
  "make_groove_cutter name cells cell_size groove_w groove_d piece_t' =
     (case get_grid_lines_for_piece cells of
        Inl e \<Rightarrow> Inl e
      | Inr (x_lines, y_lines) \<Rightarrow>
     (case bounds cells of
        Inl e \<Rightarrow> Inl e
      | Inr (min_x, max_x, min_y, max_y) \<Rightarrow>
          (let piece_x_min = real_of_int min_x * cell_size;
               piece_x_max = real_of_int (max_x + 1) * cell_size;
               piece_y_min = real_of_int min_y * cell_size;
               piece_y_max = real_of_int (max_y + 1) * cell_size;
               bars_x = map (\<lambda>gx.
                 (let x_center = real_of_int gx * cell_size
                  in \<lparr> obj_name = BarX gx,
                       location = (x_center, (piece_y_min + piece_y_max) / 2, groove_d / 2),
                       shape = Cube (groove_w, piece_y_max - piece_y_min + groove_w * 2, groove_d),
                       is_hole = False \<rparr>))
                 x_lines;
               bars_y = map (\<lambda>gy.
                 (let y_center = real_of_int gy * cell_size
                  in \<lparr> obj_name = BarY gy,
                       location = ((piece_x_min + piece_x_max) / 2, y_center, groove_d / 2),
                       shape = Cube (piece_x_max - piece_x_min + groove_w * 2, groove_w, groove_d),
                       is_hole = False \<rparr>))
                 y_lines;
               bars = bars_x @ bars_y
           in if bars = [] then Inr None
              else Inr (Some \<lparr> cutter_name = name, bars = bars \<rparr>))))"

text \<open>
  Specification side: the number of grid cells the bounding footprint spans on each axis,
  the interval an object occupies on each axis, the interval of a bar along its long axis
  (Y for an X grid line, X for a Y grid line), the interval of the piece footprint along
  that axis, and "the bar overshoots the footprint by at least \<open>groove_w\<close> on both
  ends".
\<close>

definition span_x :: "grid_cell list \<Rightarrow> int" where
  "span_x cells = Max (fst ` set cells) - Min (fst ` set cells) + 1"

definition span_y :: "grid_cell list \<Rightarrow> int" where
  "span_y cells = Max (snd ` set cells) - Min (snd ` set cells) + 1"

definition x_range :: "mesh_obj \<Rightarrow> real \<times> real" where
  "x_range b = (case (location b, shape b) of
      ((x, y, z), Cube (sx, sy, sz)) \<Rightarrow> (x - \<bar>sx\<bar> / 2, x + \<bar>sx\<bar> / 2)
    | ((x, y, z), Cylinder r d) \<Rightarrow> (x - \<bar>r\<bar>, x + \<bar>r\<bar>))"

definition y_range :: "mesh_obj \<Rightarrow> real \<times> real" where
  "y_range b = (case (location b, shape b) of
      ((x, y, z), Cube (sx, sy, sz)) \<Rightarrow> (y - \<bar>sy\<bar> / 2, y + \<bar>sy\<bar> / 2)
    | ((x, y, z), Cylinder r d) \<Rightarrow> (y - \<bar>r\<bar>, y + \<bar>r\<bar>))"

definition long_axis_range :: "mesh_obj \<Rightarrow> real \<times> real" where
  "long_axis_range b = (case obj_name b of BarX gx \<Rightarrow> y_range b | BarY gy \<Rightarrow> x_range b | _ \<Rightarrow> (0, 0))"

definition footprint_range :: "grid_cell list \<Rightarrow> real \<Rightarrow> mesh_obj \<Rightarrow> real \<times> real" where
  "footprint_range cells cell_size b =
     (case obj_name b of
        BarX gx \<Rightarrow> (real_of_int (Min (snd ` set cells)) * cell_size,
                    real_of_int (Max (snd ` set cells) + 1) * cell_size)
      | BarY gy \<Rightarrow> (real_of_int (Min (fst ` set cells)) * cell_size,
                    real_of_int (Max (fst ` set cells) + 1) * cell_size)
      | _ \<Rightarrow> (0, 0))"

definition overshoots :: "grid_cell list \<Rightarrow> real \<Rightarrow> real \<Rightarrow> mesh_obj \<Rightarrow> bool" where
  "overshoots cells cell_size groove_w b =
     (fst (long_axis_range b) \<le> fst (footprint_range cells cell_size b) - groove_w \<and>
      snd (footprint_range cells cell_size b) + groove_w \<le> snd (long_axis_range b))"

section \<open>Board tile builder\<close>








definition holes :: "mesh_obj list \<Rightarrow> mesh_obj list" where
  "holes objs = filter (\<lambda>o'. is_hole o') objs"

definition solids :: "mesh_obj list \<Rightarrow> mesh_obj list" where
  "solids objs = filter (\<lambda>o'. \<not> is_hole o') objs"












section \<open>CSG engine\<close>

text \<open>
  \<^verbatim>\<open>apply_boolean(target, cutter, operation)\<close> works on Blender objects through Blender
  operators. The model keeps what the function reads and writes: an object's mesh data
  (of any type \<open>'m\<close>) and its modifier stack. A modifier carries the name Blender gave
  it, its settings, and a handle that stands for the identity of the Python object
  (\<^verbatim>\<open>modifiers.remove(mod)\<close> removes that object, whatever its name).
\<close>

datatype operation = UNION | DIFFERENCE | INTERSECT









section \<open>Packing layout engine\<close>

text \<open>
  \<^verbatim>\<open>layout_pieces_shelf(color, piece_objects, gap, cell)\<close>. A piece object is its
  \<^verbatim>\<open>bound_box\<close> (Blender gives the eight corners, in object space) and its
  \<^verbatim>\<open>location\<close>. \<open>list_min\<close> and \<open>list_max\<close> are \<^verbatim>\<open>min\<close> and \<^verbatim>\<open>max\<close> on a list
  that is never empty here.
\<close>

datatype bound_box = BoundBox vec3 vec3 vec3 vec3 vec3 vec3 vec3 vec3

fun corners :: "bound_box \<Rightarrow> vec3 list" where
  "corners (BoundBox a b c d e f g h) = [a, b, c, d, e, f, g, h]"

record piece_object =
  bound_box :: bound_box
  obj_location :: vec3

definition list_min :: "real list \<Rightarrow> real" where
  "list_min xs = fold min (tl xs) (hd xs)"

definition list_max :: "real list \<Rightarrow> real" where
  "list_max xs = fold max (tl xs) (hd xs)"

definition bb_xs :: "piece_object \<Rightarrow> real list" where
  "bb_xs obj = map (\<lambda>v. fst v) (corners (bound_box obj))"

definition bb_ys :: "piece_object \<Rightarrow> real list" where
  "bb_ys obj = map (\<lambda>v. fst (snd v)) (corners (bound_box obj))"

definition bbox_area :: "piece_object \<Rightarrow> real" where
  "bbox_area obj =
     (let xs = bb_xs obj; ys = bb_ys obj
      in (list_max xs - list_min xs) * (list_max ys - list_min ys))"

text \<open>
  The loop over the sorted pieces, with its three variables as the state. The source
  changes each object's location in place; the model returns the objects in the order
  the loop visits them.
\<close>

record layout_state =
  cursor_x :: real
  cursor_y :: real
  row_height :: real

fun place :: "real \<Rightarrow> real \<Rightarrow> layout_state \<Rightarrow> piece_object list \<Rightarrow> piece_object list" where
  "place gap max_row_width st [] = []"
| "place gap max_row_width st (obj # rest) =
     (let xs = bb_xs obj;
          ys = bb_ys obj;
          w = list_max xs - list_min xs;
          h = list_max ys - list_min ys;
          ox = list_min xs;
          oy = list_min ys;
          st1 = (if cursor_x st + w > max_row_width \<and> cursor_x st > 0
                 then \<lparr> cursor_x = 0, cursor_y = cursor_y st + (row_height st + gap),
                        row_height = 0 \<rparr>
                 else st);
          obj' = (case obj_location obj of (lx, ly, lz) \<Rightarrow>
                    obj \<lparr> obj_location := (lx + (cursor_x st1 - ox), ly + (cursor_y st1 - oy), lz) \<rparr>);
          st2 = \<lparr> cursor_x = cursor_x st1 + (w + gap), cursor_y = cursor_y st1,
                  row_height = max (row_height st1) h \<rparr>
      in obj' # place gap max_row_width st2 rest)"

text \<open>
  \<^verbatim>\<open>piece_objects.sort(key=bbox_area, reverse=True)\<close> is stable: descending area, equal
  areas in their input order. That is the stable ascending sort by the negated area. The
  parameter \<^verbatim>\<open>color\<close> is not used by the source.
\<close>

definition layout_pieces_shelf ::
  "string \<Rightarrow> piece_object list \<Rightarrow> real \<Rightarrow> real \<Rightarrow> piece_object list" where
  "layout_pieces_shelf color piece_objects gap cell' =
     (if piece_objects = [] then piece_objects
      else (let sorted_objects = sort_key (\<lambda>obj. - bbox_area obj) piece_objects;
                max_row_width = cell' * 25
            in place gap max_row_width \<lparr> cursor_x = 0, cursor_y = 0, row_height = 0 \<rparr>
                 sorted_objects))"

text \<open>
  Specification side. The axis-aligned bounding box of a placed piece in the plane is its
  object-space box moved by its location (the pieces this add-on builds are neither
  rotated nor scaled). Two boxes overlap when their interiors meet. \<open>at_origin\<close>: the
  location has \<open>x = y = 0\<close>, as \<^verbatim>\<open>create_piece_with_grooves\<close> leaves every piece.
  \<open>next_in_row\<close>: the next piece sits in the same row, one gap after the previous one, so
  the x-cursor did not decrease; \<open>wrapped\<close>: the next piece starts a new row at \<open>x = 0\<close>,
  at least one gap above the previous piece.
\<close>

definition world_min_x :: "piece_object \<Rightarrow> real" where
  "world_min_x obj = fst (obj_location obj) + list_min (bb_xs obj)"

definition world_max_x :: "piece_object \<Rightarrow> real" where
  "world_max_x obj = fst (obj_location obj) + list_max (bb_xs obj)"

definition world_min_y :: "piece_object \<Rightarrow> real" where
  "world_min_y obj = fst (snd (obj_location obj)) + list_min (bb_ys obj)"

definition world_max_y :: "piece_object \<Rightarrow> real" where
  "world_max_y obj = fst (snd (obj_location obj)) + list_max (bb_ys obj)"

definition boxes_overlap :: "piece_object \<Rightarrow> piece_object \<Rightarrow> bool" where
  "boxes_overlap a b =
     (world_min_x a < world_max_x b \<and> world_min_x b < world_max_x a \<and>
      world_min_y a < world_max_y b \<and> world_min_y b < world_max_y a)"

definition at_origin :: "piece_object \<Rightarrow> bool" where
  "at_origin obj = (fst (obj_location obj) = 0 \<and> fst (snd (obj_location obj)) = 0)"

definition next_in_row :: "real \<Rightarrow> piece_object \<Rightarrow> piece_object \<Rightarrow> bool" where
  "next_in_row gap a b =
     (world_min_y b = world_min_y a \<and> world_min_x b = world_max_x a + gap \<and>
      world_min_x a \<le> world_min_x b)"

definition wrapped :: "real \<Rightarrow> piece_object \<Rightarrow> piece_object \<Rightarrow> bool" where
  "wrapped gap a b = (world_min_x b = 0 \<and> world_max_y a + gap \<le> world_min_y b)"

text \<open>
  Sample pieces: the bounding box of a \<open>w\<close> by \<open>h\<close> piece of height 1.
\<close>

definition unit_box :: "real \<Rightarrow> real \<Rightarrow> bound_box" where
  "unit_box w h = BoundBox (0,0,0) (0,0,1) (0,h,1) (0,h,0) (w,0,0) (w,0,1) (w,h,1) (w,h,0)"

text \<open>
  One round of the loop in three parts, for the proofs: the wrap test, the move of the
  object, and the advance of the cursor.
\<close>

definition width :: "piece_object \<Rightarrow> real" where
  "width obj = list_max (bb_xs obj) - list_min (bb_xs obj)"

definition height :: "piece_object \<Rightarrow> real" where
  "height obj = list_max (bb_ys obj) - list_min (bb_ys obj)"

definition wrap_state :: "real \<Rightarrow> real \<Rightarrow> layout_state \<Rightarrow> piece_object \<Rightarrow> layout_state" where
  "wrap_state gap m st obj =
     (if cursor_x st + width obj > m \<and> cursor_x st > 0
      then \<lparr> cursor_x = 0, cursor_y = cursor_y st + (row_height st + gap), row_height = 0 \<rparr>
      else st)"

definition move_to :: "layout_state \<Rightarrow> piece_object \<Rightarrow> piece_object" where
  "move_to st obj =
     (case obj_location obj of (lx, ly, lz) \<Rightarrow>
        obj \<lparr> obj_location := (lx + (cursor_x st - list_min (bb_xs obj)),
                                ly + (cursor_y st - list_min (bb_ys obj)), lz) \<rparr>)"

definition advance :: "real \<Rightarrow> layout_state \<Rightarrow> piece_object \<Rightarrow> layout_state" where
  "advance gap st obj =
     \<lparr> cursor_x = cursor_x st + (width obj + gap), cursor_y = cursor_y st,
       row_height = max (row_height st) (height obj) \<rparr>"

definition piece3 :: piece_object where
  "piece3 = \<lparr> bound_box = unit_box 3 1, obj_location = (0, 0, 0) \<rparr>"

definition piece1 :: piece_object where
  "piece1 = \<lparr> bound_box = unit_box 1 1, obj_location = (0, 0, 0) \<rparr>"

definition piece2 :: piece_object where
  "piece2 = \<lparr> bound_box = unit_box 2 1, obj_location = (0, 0, 0) \<rparr>"

definition piece1_moved :: piece_object where
  "piece1_moved = \<lparr> bound_box = unit_box 1 1, obj_location = (- 3, 0, 0) \<rparr>"

section \<open>Validation: results\<close>

text \<open>
  Claim C1, as the code has it. A clearance above 0.35 appends the "clearance is large"
  message to the same list as every other message, and \<^verbatim>\<open>ok\<close> is "the list is empty":
  so every record with \<open>clear > 0.35\<close> is rejected (\<open>ok = False\<close>), the message is in
  the list, and the operators cancel. When the clearance is the only deviation the list
  holds exactly that one message.
\<close>

theorem validate_params_large_clearance_rejected:
  "clear p > 0.35 \<Longrightarrow>
     fst (validate_params p) = False \<and>
     ClearanceLarge (clear p) \<in> set (snd (validate_params p)) \<and>
     params_gate p = Some CANCELLED \<and>
     (piece_t p - (rib_h p + 0.25) \<ge> 1.6 \<and> rib_w p + 2 * clear p > rib_w p \<longrightarrow>
        snd (validate_params p) = [ClearanceLarge (clear p)])"
  by (auto simp: validate_params_def params_gate_def Let_def)

theorem validate_params_large_clearance_witness:
  "clear (default_params\<lparr>clear := 0.5\<rparr>) > 0.35 \<and>
   fst (validate_params (default_params\<lparr>clear := 0.5\<rparr>)) = False \<and>
   params_gate (default_params\<lparr>clear := 0.5\<rparr>) = Some CANCELLED \<and>
   snd (validate_params (default_params\<lparr>clear := 0.5\<rparr>)) = [ClearanceLarge 0.5]"
proof -
  let ?p = "default_params\<lparr>clear := 0.5\<rparr>"
  have h: "clear ?p > 0.35" by (simp add: default_params_def)
  have w: "piece_t ?p - (rib_h ?p + 0.25) \<ge> 1.6" by (simp add: default_params_def)
  have g: "rib_w ?p + 2 * clear ?p > rib_w ?p" by (simp add: default_params_def)
  have c: "clear ?p = 0.5" by (simp add: default_params_def)
  show ?thesis
    using h w g validate_params_large_clearance_rejected [OF h]
    by (simp add: c)
qed

text \<open>
  Claim C1 as the specification states it ("still reports the parameters as acceptable")
  fails: the default parameters with \<open>clear = 0.5\<close> satisfy every other invariant
  (remaining wall 2.05, clearance not negative, groove wider than the rib), and
  \<^verbatim>\<open>validate_params\<close> returns \<open>ok = False\<close>.
\<close>

theorem validate_params_large_clearance_counterexample:
  "piece_t (default_params\<lparr>clear := 0.5\<rparr>) - (rib_h (default_params\<lparr>clear := 0.5\<rparr>) + 0.25) \<ge> 1.6 \<and>
   0 \<le> clear (default_params\<lparr>clear := 0.5\<rparr>) \<and>
   rib_w (default_params\<lparr>clear := 0.5\<rparr>) + 2 * clear (default_params\<lparr>clear := 0.5\<rparr>)
     > rib_w (default_params\<lparr>clear := 0.5\<rparr>) \<and>
   clear (default_params\<lparr>clear := 0.5\<rparr>) > 0.35 \<and>
   \<not> fst (validate_params (default_params\<lparr>clear := 0.5\<rparr>))"
  by (simp add: validate_params_def default_params_def Let_def)

text \<open>
  Claim C8. \<^verbatim>\<open>validate_params\<close> rejects, with a message, every record whose remaining
  wall \<open>piece_t - (rib_h + 0.25)\<close> is below 1.6 and every record whose groove width
  \<open>rib_w + 2 * clear\<close> is at most \<open>rib_w\<close>; the default parameter set is accepted with
  \<open>ok = True\<close> and no message.
\<close>

theorem validate_params_rejects_and_accepts_default:
  "(piece_t p - (rib_h p + 0.25) < 1.6 \<longrightarrow>
      fst (validate_params p) = False \<and>
      RemainingWall (piece_t p - (rib_h p + 0.25)) \<in> set (snd (validate_params p))) \<and>
   (rib_w p + 2 * clear p \<le> rib_w p \<longrightarrow>
      fst (validate_params p) = False \<and> GrooveNotWider \<in> set (snd (validate_params p))) \<and>
   validate_params default_params = (True, [])"
  by (auto simp: validate_params_def default_params_def Let_def)

theorem validate_params_rejects_witness:
  "piece_t (default_params\<lparr>piece_t := 2\<rparr>) - (rib_h (default_params\<lparr>piece_t := 2\<rparr>) + 0.25) < 1.6 \<and>
   validate_params (default_params\<lparr>piece_t := 2\<rparr>) = (False, [RemainingWall 0.85]) \<and>
   rib_w (default_params\<lparr>clear := 0\<rparr>) + 2 * clear (default_params\<lparr>clear := 0\<rparr>)
     \<le> rib_w (default_params\<lparr>clear := 0\<rparr>) \<and>
   validate_params (default_params\<lparr>clear := 0\<rparr>) = (False, [GrooveNotWider]) \<and>
   validate_params default_params = (True, [])"
  using validate_params_rejects_and_accepts_default [of "default_params\<lparr>piece_t := 2\<rparr>"]
    validate_params_rejects_and_accepts_default [of "default_params\<lparr>clear := 0\<rparr>"]
  by (simp add: validate_params_def default_params_def Let_def)

section \<open>Outline extractor: results\<close>

lemma walk_acc: "\<forall>l. walk adj cur vis l = l @ walk adj cur vis []"
proof (rule walk.induct[where P = "\<lambda>adj cur vis loop. \<forall>l. walk adj cur vis l = l @ walk adj cur vis []"
      and ?a3.0 = "[]"])
  fix adj cur vis and loop :: "vertex list"
  assume IH: "\<And>nb. find_next adj cur vis = Some nb \<Longrightarrow>
    \<forall>l. walk adj nb (insert (sorted_edge (cur, nb)) vis) l
       = l @ walk adj nb (insert (sorted_edge (cur, nb)) vis) []"
  show "\<forall>l. walk adj cur vis l = l @ walk adj cur vis []"
  proof (cases "find_next adj cur vis")
    case None
    then show ?thesis by (simp add: walk.simps)
  next
    case (Some nb)
    show ?thesis
    proof
      fix l
      have "walk adj cur vis l = walk adj nb (insert (sorted_edge (cur, nb)) vis) (l @ [nb])"
        using Some by (simp add: walk.simps[of adj cur vis l])
      also have "\<dots> = (l @ [nb]) @ walk adj nb (insert (sorted_edge (cur, nb)) vis) []"
        using IH[OF Some] by blast
      also have "\<dots> = l @ walk adj nb (insert (sorted_edge (cur, nb)) vis) [nb]"
        using IH[OF Some] by (metis append.assoc)
      also have "\<dots> = l @ walk adj cur vis []"
        using Some by (simp add: walk.simps[of adj cur vis "[]"])
      finally show "walk adj cur vis l = l @ walk adj cur vis []" .
    qed
  qed
qed

lemma walk_Nil_None: "find_next adj cur vis = None \<Longrightarrow> walk adj cur vis [] = []"
  by (simp add: walk.simps)

lemma walk_Nil_Some:
  "find_next adj cur vis = Some nb \<Longrightarrow>
   walk adj cur vis [] = nb # walk adj nb (insert (sorted_edge (cur, nb)) vis) []"
proof -
  assume f: "find_next adj cur vis = Some nb"
  have "walk adj cur vis [] = walk adj nb (insert (sorted_edge (cur, nb)) vis) [nb]"
    using f by (simp add: walk.simps[of adj cur vis "[]"])
  also have "\<dots> = [nb] @ walk adj nb (insert (sorted_edge (cur, nb)) vis) []"
    using walk_acc by blast
  finally show ?thesis by simp
qed

lemma walk_path_ok: "path_ok adj vis (cur # walk adj cur vis [])"
proof (rule walk.induct[where P = "\<lambda>adj cur vis loop. path_ok adj vis (cur # walk adj cur vis [])"
      and ?a3.0 = "[]"])
  fix adj cur vis and loop :: "vertex list"
  assume IH: "\<And>nb. find_next adj cur vis = Some nb \<Longrightarrow>
    path_ok adj (insert (sorted_edge (cur, nb)) vis)
      (nb # walk adj nb (insert (sorted_edge (cur, nb)) vis) [])"
  show "path_ok adj vis (cur # walk adj cur vis [])"
  proof (cases "find_next adj cur vis")
    case None
    then show ?thesis by (simp add: walk_Nil_None path_ok_def steps_def)
  next
    case (Some nb)
    have nb: "nb \<in> set (adj_get adj cur)" "sorted_edge (cur, nb) \<notin> vis"
      using Some by (auto simp: find_next_def find_Some_iff)
    from IH[OF Some] nb show ?thesis
      by (auto simp: walk_Nil_Some[OF Some] path_ok_def steps_def)
  qed
qed

lemma adj_get_adj_append:
  "adj_get (adj_append a b adj) v = (if v = a then adj_get adj a @ [b] else adj_get adj v)"
  by (induction adj) (auto simp: adj_get_def)

lemma adj_get_fold:
  "v \<in> set (adj_get (fold (\<lambda>(a, b) adj. adj_append b a (adj_append a b adj)) bs adj0) u) \<Longrightarrow>
   v \<in> set (adj_get adj0 u) \<or> (u, v) \<in> set bs \<or> (v, u) \<in> set bs"
proof (induction bs arbitrary: adj0)
  case Nil
  then show ?case by simp
next
  case (Cons e bs)
  obtain a b where e: "e = (a, b)" by (cases e)
  from Cons.prems have
    "v \<in> set (adj_get (fold (\<lambda>(a, b) adj. adj_append b a (adj_append a b adj)) bs
        (adj_append b a (adj_append a b adj0))) u)"
    by (simp add: e)
  from Cons.IH[OF this] show ?case
    by (auto simp: e adj_get_adj_append split: if_splits)
qed

lemma adj_get_build_adj:
  "v \<in> set (adj_get (build_adj boundary) u) \<Longrightarrow> (u, v) \<in> set boundary \<or> (v, u) \<in> set boundary"
  using adj_get_fold[of v boundary "[]" u] by (simp add: build_adj_def adj_get_def)

lemma sorted_edge_idem: "sorted_edge (sorted_edge e) = sorted_edge e"
  by (cases e) (auto simp: sorted_edge_def tuple_less_def)

lemma sorted_edge_swap:
  assumes "sorted_edge (a, b) = (a, b)"
  shows "sorted_edge (b, a) = (a, b)"
proof (cases "tuple_less b a")
  case True
  then have "sorted_edge (a, b) = (b, a)" by (simp add: sorted_edge_def)
  with assms have "a = b" by (metis prod.inject)
  with True show ?thesis by (simp add: tuple_less_def)
next
  case False
  show ?thesis
  proof (cases "tuple_less a b")
    case True
    then show ?thesis by (simp add: sorted_edge_def)
  next
    case F2: False
    have "fst a = fst b" "snd a = snd b"
      using False F2 unfolding tuple_less_def by linarith+
    then have "a = b" by (simp add: prod_eq_iff)
    then show ?thesis using False by (simp add: sorted_edge_def)
  qed
qed

lemma keys_count_incr: "fst ` set (count_incr k ec) = insert k (fst ` set ec)"
  by (induction k ec rule: count_incr.induct) (simp_all add: insert_commute)

lemma keys_fold_incr:
  "fst ` set (fold (\<lambda>e ec'. count_incr (sorted_edge e) ec') es ec)
     = sorted_edge ` set es \<union> fst ` set ec"
  by (induction es arbitrary: ec) (auto simp: keys_count_incr)

lemma keys_fold_cells:
  "k \<in> fst ` set (fold (\<lambda>c ec. fold (\<lambda>e ec'. count_incr (sorted_edge e) ec') (cell_edges c) ec) cells ec0)
   \<Longrightarrow> k \<in> fst ` set ec0 \<or> (\<exists>e. k = sorted_edge e)"
proof (induction cells arbitrary: ec0)
  case Nil
  then show ?case by simp
next
  case (Cons c cells)
  from Cons.IH[of "fold (\<lambda>e ec'. count_incr (sorted_edge e) ec') (cell_edges c) ec0"] Cons.prems
  show ?case by (auto simp: keys_fold_incr)
qed

lemma boundary_sorted: "e \<in> set (boundary_edges cells) \<Longrightarrow> sorted_edge e = e"
proof -
  assume "e \<in> set (boundary_edges cells)"
  then have "e \<in> fst ` set (edge_count cells)"
    by (auto simp: boundary_edges_def)
  then obtain e' where "e = sorted_edge e'"
    using keys_fold_cells[of e cells "[]"] by (auto simp: edge_count_def)
  then show ?thesis by (simp add: sorted_edge_idem)
qed

lemma path_ok_boundary:
  assumes "path_ok (build_adj boundary) vis vs" and "\<forall>e \<in> set boundary. sorted_edge e = e"
  shows "set (steps vs) \<subseteq> set boundary"
proof
  fix k assume "k \<in> set (steps vs)"
  then obtain u v where uv: "(u, v) \<in> set (zip vs (tl vs))" and k: "k = sorted_edge (u, v)"
    by (auto simp: steps_def)
  from assms(1) uv have "v \<in> set (adj_get (build_adj boundary) u)"
    by (auto simp: path_ok_def)
  then have "(u, v) \<in> set boundary \<or> (v, u) \<in> set boundary" by (rule adj_get_build_adj)
  then show "k \<in> set boundary"
  proof
    assume "(u, v) \<in> set boundary"
    with assms(2) show ?thesis by (auto simp: k)
  next
    assume m: "(v, u) \<in> set boundary"
    with assms(2) have "sorted_edge (v, u) = (v, u)" by blast
    then have "sorted_edge (u, v) = (v, u)" by (rule sorted_edge_swap)
    with m show ?thesis by (simp add: k)
  qed
qed

lemma walk_loop_path:
  "set (steps (walk_loop cells)) \<subseteq> set (boundary_edges cells) \<and> distinct (steps (walk_loop cells))"
proof (cases "boundary_edges cells")
  case Nil
  then show ?thesis by (simp add: walk_loop_def steps_def)
next
  case (Cons e0 rest)
  let ?adj = "build_adj (boundary_edges cells)"
  have "walk ?adj (fst e0) {} [fst e0] = [fst e0] @ walk ?adj (fst e0) {} []"
    using walk_acc by blast
  then have w: "walk_loop cells = fst e0 # walk ?adj (fst e0) {} []"
    by (simp add: walk_loop_def Cons Let_def)
  have p: "path_ok ?adj {} (walk_loop cells)"
    unfolding w by (rule walk_path_ok)
  have "set (steps (walk_loop cells)) \<subseteq> set (boundary_edges cells)"
    using p by (rule path_ok_boundary) (simp add: boundary_sorted)
  moreover have "distinct (steps (walk_loop cells))" using p by (simp add: path_ok_def)
  ultimately show ?thesis by simp
qed

text \<open>
  Claim C3, as the code has it. \<^verbatim>\<open>cells_to_outline\<close> has no malformed-shape error: for
  every cell list it returns the vertices of one walk from the first boundary edge. Every
  step of that walk is a boundary edge, no boundary edge is used twice, and the result is
  the walk or the walk without its last vertex. Nothing checks that the walk used every
  boundary edge.
\<close>

theorem cells_to_outline_no_error_partial:
  "set (steps (walk_loop cells)) \<subseteq> set (boundary_edges cells) \<and>
   distinct (steps (walk_loop cells)) \<and>
   (cells_to_outline cells = walk_loop cells \<or> cells_to_outline cells = butlast (walk_loop cells))"
  using walk_loop_path[of cells]
  by (auto simp: cells_to_outline_def walk_loop_def Let_def)

lemma outline_I1: "simple_closed_outline [(0, 0)]"
  by code_simp

lemma outline_I2: "simple_closed_outline [(0, 0), (1, 0)]"
  by code_simp

lemma outline_I3: "simple_closed_outline [(0, 0), (1, 0), (2, 0)]"
  by code_simp

lemma outline_L3: "simple_closed_outline [(0, 0), (1, 0), (1, 1)]"
  by code_simp

lemma outline_I4: "simple_closed_outline [(0, 0), (1, 0), (2, 0), (3, 0)]"
  by code_simp

lemma outline_L4: "simple_closed_outline [(0, 0), (1, 0), (2, 0), (2, 1)]"
  by code_simp

lemma outline_T4: "simple_closed_outline [(0, 0), (1, 0), (2, 0), (1, 1)]"
  by code_simp

lemma outline_O4: "simple_closed_outline [(0, 0), (1, 0), (0, 1), (1, 1)]"
  by code_simp

lemma outline_S4: "simple_closed_outline [(0, 0), (1, 0), (1, 1), (2, 1)]"
  by code_simp

lemma outline_F5: "simple_closed_outline [(1, 0), (2, 0), (0, 1), (1, 1), (1, 2)]"
  by code_simp

lemma outline_I5: "simple_closed_outline [(0, 0), (1, 0), (2, 0), (3, 0), (4, 0)]"
  by code_simp

lemma outline_L5: "simple_closed_outline [(0, 0), (1, 0), (2, 0), (3, 0), (3, 1)]"
  by code_simp

lemma outline_N5: "simple_closed_outline [(0, 0), (1, 0), (1, 1), (2, 1), (3, 1)]"
  by code_simp

lemma outline_P5: "simple_closed_outline [(0, 0), (1, 0), (0, 1), (1, 1), (0, 2)]"
  by code_simp

lemma outline_T5: "simple_closed_outline [(0, 0), (1, 0), (2, 0), (1, 1), (1, 2)]"
  by code_simp

lemma outline_U5: "simple_closed_outline [(0, 0), (2, 0), (0, 1), (1, 1), (2, 1)]"
  by code_simp

lemma outline_V5: "simple_closed_outline [(0, 0), (0, 1), (0, 2), (1, 2), (2, 2)]"
  by code_simp

lemma outline_W5: "simple_closed_outline [(0, 0), (0, 1), (1, 1), (1, 2), (2, 2)]"
  by code_simp

lemma outline_X5: "simple_closed_outline [(1, 0), (0, 1), (1, 1), (2, 1), (1, 2)]"
  by code_simp

lemma outline_Y5: "simple_closed_outline [(0, 0), (1, 0), (2, 0), (3, 0), (1, 1)]"
  by code_simp

lemma outline_Z5: "simple_closed_outline [(0, 0), (1, 0), (1, 1), (1, 2), (2, 2)]"
  by code_simp

text \<open>
  Claim C5. For each of the 21 shapes of the catalogue the walk returns to its start, the
  duplicate closing vertex is dropped, the outline visits each vertex once, its edges are
  exactly the boundary edges of the shape (one loop, nothing left over), and the enclosed
  area is the number of cells.
\<close>

theorem catalogue_outlines_simple_closed:
  "length PIECES = 21 \<and> (\<forall>(name, cells) \<in> set PIECES. simple_closed_outline cells)"
  by (simp add: PIECES_def outline_I1 outline_I2 outline_I3 outline_L3 outline_I4 outline_L4 outline_T4 outline_O4 outline_S4 outline_F5 outline_I5 outline_L5 outline_N5 outline_P5 outline_T5 outline_U5 outline_V5 outline_W5 outline_X5 outline_Y5 outline_Z5)

theorem catalogue_outlines_witness:
  "(''F5'', [(1, 0), (2, 0), (0, 1), (1, 1), (1, 2)]) \<in> set PIECES \<and>
   simple_closed_outline [(1, 0), (2, 0), (0, 1), (1, 1), (1, 2)] \<and>
   cells_to_outline [(1, 0), (2, 0), (0, 1), (1, 1), (1, 2)] =
     [(1, 0), (2, 0), (3, 0), (3, 1), (2, 1), (2, 2), (2, 3), (1, 3), (1, 2), (0, 2), (0, 1), (1, 1)]"
proof -
  have m: "(''F5'', [(1, 0), (2, 0), (0, 1), (1, 1), (1, 2)]) \<in> set PIECES"
    by (simp add: PIECES_def)
  have "simple_closed_outline [(1, 0), (2, 0), (0, 1), (1, 1), (1, 2)]"
    using catalogue_outlines_simple_closed m by blast
  moreover have "cells_to_outline [(1, 0), (2, 0), (0, 1), (1, 1), (1, 2)] =
     [(1, 0), (2, 0), (3, 0), (3, 1), (2, 1), (2, 2), (2, 3), (1, 3), (1, 2), (0, 2), (0, 1), (1, 1)]"
    by code_simp
  ultimately show ?thesis using m by simp
qed

text \<open>
  Claim C3 as the specification states it fails. The two cells \<open>(0,0)\<close> and \<open>(2,0)\<close> are
  disconnected and have 8 boundary edges; the result is the square of the first cell, with
  no error. The ring of 8 cells around \<open>(1,1)\<close> has a hole and 16 boundary edges; the
  result is the outer square of 12 vertices, with no error and without the 4 edges of the
  hole.
\<close>

theorem cells_to_outline_malformed_counterexample:
  "cells_to_outline [(0, 0), (2, 0)] = [(0, 0), (1, 0), (1, 1), (0, 1)] \<and>
   length (boundary_edges [(0, 0), (2, 0)]) = 8 \<and>
   cells_to_outline [(0, 0), (1, 0), (2, 0), (0, 1), (2, 1), (0, 2), (1, 2), (2, 2)] =
     [(0, 0), (1, 0), (2, 0), (3, 0), (3, 1), (3, 2), (3, 3), (2, 3), (1, 3), (0, 3), (0, 2), (0, 1)] \<and>
   length (boundary_edges [(0, 0), (1, 0), (2, 0), (0, 1), (2, 1), (0, 2), (1, 2), (2, 2)]) = 16"
  by code_simp

section \<open>Groove cutter builder: results\<close>

lemma py_min_Min: "xs \<noteq> [] \<Longrightarrow> py_min xs = Inr (Min (set xs))"
  by (cases xs) (simp_all add: py_min_def Min.set_eq_fold[symmetric])

lemma py_max_Max: "xs \<noteq> [] \<Longrightarrow> py_max xs = Inr (Max (set xs))"
  by (cases xs) (simp_all add: py_max_def Max.set_eq_fold[symmetric])

lemma bounds_nonempty:
  "cells \<noteq> [] \<Longrightarrow>
   bounds cells = Inr (Min (fst ` set cells), Max (fst ` set cells),
                       Min (snd ` set cells), Max (snd ` set cells))"
  by (simp add: bounds_def py_min_Min py_max_Max)

lemma overshoot_lo: "(A + B) / 2 - \<bar>B - A + w * 2\<bar> / 2 \<le> A - (w::real)"
  by (simp add: abs_if field_simps)

lemma overshoot_hi: "B + (w::real) \<le> (A + B) / 2 + \<bar>B - A + w * 2\<bar> / 2"
  by (simp add: abs_if field_simps)

text \<open>
  Claim C6. For every non-empty cell list \<^verbatim>\<open>make_groove_cutter\<close> returns a cutter made
  of exactly \<open>(span_x + 1) + (span_y + 1)\<close> bars, and every bar reaches at least
  \<open>groove_w\<close> beyond the piece footprint on both ends of its long axis.
\<close>

theorem groove_cutter_bar_count:
  assumes "cells \<noteq> []"
  shows "\<exists>c. make_groove_cutter name cells cell_size groove_w groove_d piece_t' = Inr (Some c) \<and>
             cutter_name c = name \<and>
             int (length (bars c)) = (span_x cells + 1) + (span_y cells + 1) \<and>
             (\<forall>b \<in> set (bars c). overshoots cells cell_size groove_w b)"
proof -
  let ?minx = "Min (fst ` set cells)" and ?maxx = "Max (fst ` set cells)"
  let ?miny = "Min (snd ` set cells)" and ?maxy = "Max (snd ` set cells)"
  have fin: "finite (fst ` set cells)" "fst ` set cells \<noteq> {}"
            "finite (snd ` set cells)" "snd ` set cells \<noteq> {}"
    using assms by simp_all
  have x: "?minx \<le> ?maxx" using fin by (simp add: Min_le_iff) 
  have y: "?miny \<le> ?maxy" using fin by (simp add: Min_le_iff)
  have b: "bounds cells = Inr (?minx, ?maxx, ?miny, ?maxy)"
    using assms by (rule bounds_nonempty)
  have ne: "[?minx..?maxx + 1] \<noteq> []" using x by (simp add: upto_rec1)
  show ?thesis
    using x y ne
    by (auto simp: make_groove_cutter_def get_grid_lines_for_piece_def b Let_def
        span_x_def span_y_def overshoots_def long_axis_range_def footprint_range_def
        x_range_def y_range_def overshoot_lo overshoot_hi)
qed

theorem groove_cutter_bar_count_witness:
  "[(0, 0), (1, 0)] \<noteq> ([] :: grid_cell list) \<and>
   (\<exists>c. make_groove_cutter ''cut'' [(0, 0), (1, 0)] 20 1.6 1.15 3.2 = Inr (Some c) \<and>
        int (length (bars c)) = 5)"
proof -
  have ne: "[(0, 0), (1, 0)] \<noteq> ([] :: grid_cell list)" by simp
  have s: "span_x [(0, 0), (1, 0)] = 2" "span_y [(0, 0), (1, 0)] = 1"
    by (simp_all add: span_x_def span_y_def)
  from groove_cutter_bar_count[OF ne, of "''cut''" 20 "1.6" "1.15" "3.2"]
  obtain c where "make_groove_cutter ''cut'' [(0, 0), (1, 0)] 20 1.6 1.15 3.2 = Inr (Some c)"
    and "int (length (bars c)) = (span_x [(0, 0), (1, 0)] + 1) + (span_y [(0, 0), (1, 0)] + 1)"
    by blast
  then show ?thesis using ne by (auto simp: s)
qed

text \<open>
  Claim C7 on the code. With no cells, \<^verbatim>\<open>xs\<close> is empty and the first \<^verbatim>\<open>min(xs)\<close>, in
  \<^verbatim>\<open>get_grid_lines_for_piece\<close>, raises \<^verbatim>\<open>ValueError\<close>; nothing catches it, so
  \<^verbatim>\<open>make_groove_cutter\<close> raises too and its \<^verbatim>\<open>if not bars: return None\<close> is never
  reached.
\<close>

theorem make_groove_cutter_empty_raises:
  "get_grid_lines_for_piece [] = Inl ValueError \<and>
   make_groove_cutter name [] cell_size groove_w groove_d piece_t' = Inl ValueError"
  by (simp add: make_groove_cutter_def get_grid_lines_for_piece_def bounds_def py_min_def)

section \<open>Board tile builder: results\<close>























section \<open>CSG engine: results\<close>






section \<open>Packing layout engine: results\<close>

lemma list_min_le_max: "xs \<noteq> [] \<Longrightarrow> list_min xs \<le> list_max xs"
proof -
  assume ne: "xs \<noteq> []"
  then have "list_min xs = Min (set xs)" "list_max xs = Max (set xs)"
    by (cases xs; simp add: list_min_def list_max_def Min.set_eq_fold[symmetric]
          Max.set_eq_fold[symmetric])+
  then show ?thesis using ne by simp
qed

lemma bb_nonempty: "bb_xs obj \<noteq> []" "bb_ys obj \<noteq> []"
  by (cases "bound_box obj"; simp add: bb_xs_def bb_ys_def)+

lemma width_nonneg: "0 \<le> list_max (bb_xs obj) - list_min (bb_xs obj)"
  using list_min_le_max[OF bb_nonempty(1)[of obj]] by simp

lemma height_nonneg: "0 \<le> list_max (bb_ys obj) - list_min (bb_ys obj)"
  using list_min_le_max[OF bb_nonempty(2)[of obj]] by simp

lemma place_Cons:
  "place gap m st (obj # rest) =
     move_to (wrap_state gap m st obj) obj #
     place gap m (advance gap (wrap_state gap m st obj) obj) rest"
  by (simp add: Let_def wrap_state_def move_to_def advance_def width_def height_def)

declare place.simps(2) [simp del]

lemma bb_move_to [simp]:
  "bb_xs (move_to st obj) = bb_xs obj" "bb_ys (move_to st obj) = bb_ys obj"
  "bound_box (move_to st obj) = bound_box obj"
  by (cases "obj_location obj"; simp add: move_to_def bb_xs_def bb_ys_def)+

lemma world_move_to:
  assumes "at_origin obj"
  shows "world_min_x (move_to st obj) = cursor_x st"
    and "world_max_x (move_to st obj) = cursor_x st + width obj"
    and "world_min_y (move_to st obj) = cursor_y st"
    and "world_max_y (move_to st obj) = cursor_y st + height obj"
  using assms
  by (cases "obj_location obj";
      simp add: at_origin_def world_min_x_def world_max_x_def world_min_y_def world_max_y_def
        width_def height_def move_to_def bb_xs_def bb_ys_def)+

lemma width_height_nonneg: "0 \<le> width obj" "0 \<le> height obj"
  using width_nonneg[of obj] height_nonneg[of obj] by (simp_all add: width_def height_def)

lemma wrap_state_cases:
  "wrap_state gap m st obj = st \<or>
   (cursor_x (wrap_state gap m st obj) = 0 \<and>
    cursor_y (wrap_state gap m st obj) = cursor_y st + (row_height st + gap) \<and>
    row_height (wrap_state gap m st obj) = 0 \<and> 0 < cursor_x st)"
  by (simp add: wrap_state_def)

lemma place_region:
  assumes "0 \<le> gap" and "0 \<le> row_height st" and "\<forall>obj \<in> set objs. at_origin obj"
    and "r \<in> set (place gap m st objs)"
  shows "cursor_y st \<le> world_min_y r \<and>
         (cursor_x st \<le> world_min_x r \<or> cursor_y st + row_height st + gap \<le> world_min_y r)"
  using assms(2-)
proof (induction objs arbitrary: st)
  case Nil
  then show ?case by simp
next
  case (Cons obj rest)
  let ?s1 = "wrap_state gap m st obj"
  let ?s2 = "advance gap ?s1 obj"
  have orig: "at_origin obj" using Cons.prems by simp
  have w: "0 \<le> width obj" "0 \<le> height obj" by (rule width_height_nonneg)+
  have s1: "?s1 = st \<or> (cursor_x ?s1 = 0 \<and> cursor_y ?s1 = cursor_y st + (row_height st + gap) \<and>
      row_height ?s1 = 0 \<and> 0 < cursor_x st)"
    by (rule wrap_state_cases)
  have rh1: "0 \<le> row_height ?s1" using s1 Cons.prems(1) by auto
  have key: "cursor_y st \<le> y \<and> (cursor_x st \<le> x \<or> cursor_y st + row_height st + gap \<le> y)"
    if "cursor_y ?s1 \<le> y" "cursor_x ?s1 \<le> x \<or> cursor_y ?s1 + row_height ?s1 + gap \<le> y"
    for x y
    using that s1 assms(1) Cons.prems(1) by auto
  from Cons.prems(3) have "r = move_to ?s1 obj \<or> r \<in> set (place gap m ?s2 rest)"
    by (simp add: place_Cons)
  then show ?case
  proof
    assume "r = move_to ?s1 obj"
    then have "world_min_x r = cursor_x ?s1" "world_min_y r = cursor_y ?s1"
      using world_move_to[OF orig] by simp_all
    then show ?thesis using key[of "world_min_y r" "world_min_x r"] by simp
  next
    assume r: "r \<in> set (place gap m ?s2 rest)"
    have rh2: "0 \<le> row_height ?s2" using rh1 by (simp add: advance_def)
    have "cursor_y ?s2 \<le> world_min_y r \<and>
         (cursor_x ?s2 \<le> world_min_x r \<or> cursor_y ?s2 + row_height ?s2 + gap \<le> world_min_y r)"
      using Cons.IH[OF rh2 _ r] Cons.prems(2) by simp
    then have "cursor_y ?s1 \<le> world_min_y r \<and>
         (cursor_x ?s1 \<le> world_min_x r \<or> cursor_y ?s1 + row_height ?s1 + gap \<le> world_min_y r)"
      using w assms(1) by (auto simp: advance_def)
    then show ?thesis using key[of "world_min_y r" "world_min_x r"] by simp
  qed
qed

lemma place_no_overlap:
  assumes "0 \<le> gap" and "0 \<le> row_height st" and "\<forall>obj \<in> set objs. at_origin obj"
  shows "sorted_wrt (\<lambda>a b. \<not> boxes_overlap a b) (place gap m st objs)"
  using assms(2-)
proof (induction objs arbitrary: st)
  case Nil
  then show ?case by simp
next
  case (Cons obj rest)
  let ?s1 = "wrap_state gap m st obj"
  let ?s2 = "advance gap ?s1 obj"
  have orig: "at_origin obj" and rest: "\<forall>obj \<in> set rest. at_origin obj"
    using Cons.prems by simp_all
  have rh1: "0 \<le> row_height ?s1" using wrap_state_cases[of gap m st obj] Cons.prems(1) by auto
  have rh2: "0 \<le> row_height ?s2" using rh1 by (simp add: advance_def)
  have "\<not> boxes_overlap (move_to ?s1 obj) r" if r: "r \<in> set (place gap m ?s2 rest)" for r
  proof -
    from place_region[OF assms(1) rh2 rest r]
    have "cursor_x ?s2 \<le> world_min_x r \<or> cursor_y ?s2 + row_height ?s2 + gap \<le> world_min_y r"
      by simp
    then have "world_max_x (move_to ?s1 obj) \<le> world_min_x r \<or>
               world_max_y (move_to ?s1 obj) \<le> world_min_y r"
      using world_move_to[OF orig, of ?s1] assms(1) by (auto simp: advance_def)
    then show ?thesis by (auto simp: boxes_overlap_def)
  qed
  moreover have "sorted_wrt (\<lambda>a b. \<not> boxes_overlap a b) (place gap m ?s2 rest)"
    using Cons.IH[OF rh2 rest] .
  ultimately show ?case by (simp add: place_Cons)
qed

lemma place_successive:
  assumes "0 \<le> gap" and "\<forall>obj \<in> set objs. at_origin obj"
  shows "successively (\<lambda>a b. next_in_row gap a b \<or> wrapped gap a b) (place gap m st objs)"
  using assms(2)
proof (induction objs arbitrary: st)
  case Nil
  then show ?case by simp
next
  case (Cons obj rest)
  let ?s1 = "wrap_state gap m st obj"
  let ?s2 = "advance gap ?s1 obj"
  have orig: "at_origin obj" and rest: "\<forall>obj \<in> set rest. at_origin obj"
    using Cons.prems by simp_all
  show ?case
  proof (cases rest)
    case Nil
    then show ?thesis by (simp add: place_Cons)
  next
    case (Cons obj2 rest2)
    let ?t1 = "wrap_state gap m ?s2 obj2"
    have o2: "at_origin obj2" using rest Cons by simp
    have w: "0 \<le> width obj" "0 \<le> height obj" by (rule width_height_nonneg)+
    have step: "next_in_row gap (move_to ?s1 obj) (move_to ?t1 obj2) \<or>
                wrapped gap (move_to ?s1 obj) (move_to ?t1 obj2)"
      using wrap_state_cases[of gap m ?s2 obj2] w assms(1)
      by (auto simp: next_in_row_def wrapped_def world_move_to[OF orig] world_move_to[OF o2]
          advance_def)
    have "successively (\<lambda>a b. next_in_row gap a b \<or> wrapped gap a b) (place gap m ?s2 rest)"
      using Cons.IH[OF rest] .
    with step show ?thesis by (simp add: place_Cons Cons)
  qed
qed

lemma place_bound_box: "map bound_box (place gap m st objs) = map bound_box objs"
  by (induction objs arbitrary: st) (simp_all add: place_Cons)

lemma place_length: "length (place gap m st objs) = length objs"
  using place_bound_box[of gap m st objs] by (metis length_map)

lemma bbox_area_cong: "bound_box a = bound_box b \<Longrightarrow> bbox_area a = bbox_area b"
  by (simp add: bbox_area_def bb_xs_def bb_ys_def)

lemma hd_sort_key_min:
  assumes "xs \<noteq> []"
  shows "hd (sort_key f xs) \<in> set xs \<and> (\<forall>x \<in> set xs. f (hd (sort_key f xs)) \<le> f x)"
proof -
  let ?s = "sort_key f xs"
  have ne: "?s \<noteq> []" using assms by (metis length_sort length_0_conv)
  then obtain y ys where s: "?s = y # ys" by (cases ?s) auto
  have "sorted (map f ?s)" by (rule sorted_sort_key)
  then have "\<forall>x \<in> set ys. f y \<le> f x" by (simp add: s)
  moreover have "set xs = insert y (set ys)" using set_sort[of f xs] by (simp add: s)
  ultimately show ?thesis by (auto simp: s)
qed

text \<open>
  Claim C9, as the code has it. The loop adds \<open>cursor - min corner\<close> to each location, so
  it puts the bounding boxes at the cursor when the pieces start at the origin, as the
  pieces built by \<^verbatim>\<open>create_piece_with_grooves\<close> do. For every non-empty list of such
  pieces and every gap \<open>\<ge> 0\<close>: the first placed piece has the largest bounding-box area
  and its minimum corner at \<open>(0, 0)\<close>; each next piece is either in the same row, one gap
  after the previous one (the x-cursor never decreases within a row), or starts a new
  row at \<open>x = 0\<close> above the previous piece; and no two placed bounding boxes overlap.
\<close>

theorem layout_pieces_shelf_at_origin:
  assumes "piece_objects \<noteq> []" and "0 \<le> gap"
    and "\<forall>obj \<in> set piece_objects. at_origin obj"
  shows "length (layout_pieces_shelf color piece_objects gap cell') = length piece_objects \<and>
     (\<exists>p \<in> set piece_objects.
        bound_box (hd (layout_pieces_shelf color piece_objects gap cell')) = bound_box p \<and>
        (\<forall>q \<in> set piece_objects. bbox_area q \<le> bbox_area p)) \<and>
     world_min_x (hd (layout_pieces_shelf color piece_objects gap cell')) = 0 \<and>
     world_min_y (hd (layout_pieces_shelf color piece_objects gap cell')) = 0 \<and>
     successively (\<lambda>a b. next_in_row gap a b \<or> wrapped gap a b)
       (layout_pieces_shelf color piece_objects gap cell') \<and>
     sorted_wrt (\<lambda>a b. \<not> boxes_overlap a b)
       (layout_pieces_shelf color piece_objects gap cell')"
proof -
  let ?sorted = "sort_key (\<lambda>obj. - bbox_area obj) piece_objects"
  let ?st = "\<lparr> cursor_x = 0, cursor_y = 0, row_height = 0 \<rparr>"
  let ?res = "layout_pieces_shelf color piece_objects gap cell'"
  have res: "?res = place gap (cell' * 25) ?st ?sorted"
    using assms(1) by (simp add: layout_pieces_shelf_def)
  have orig: "\<forall>obj \<in> set ?sorted. at_origin obj" using assms(3) by simp
  from hd_sort_key_min[OF assms(1), of "\<lambda>obj. - bbox_area obj"]
  have hd_in: "hd ?sorted \<in> set piece_objects"
    and hd_max: "\<forall>q \<in> set piece_objects. bbox_area q \<le> bbox_area (hd ?sorted)"
    by simp_all
  have ne: "?sorted \<noteq> []" using assms(1) by (metis length_sort length_0_conv)
  then obtain y ys where s: "?sorted = y # ys" by (cases ?sorted) auto
  have w0: "wrap_state gap (cell' * 25) ?st y = ?st" by (simp add: wrap_state_def)
  have hd_res: "hd ?res = move_to ?st y" by (simp add: res s place_Cons w0)
  have y0: "at_origin y" using orig s by simp
  have 1: "length ?res = length piece_objects" by (simp add: res place_length)
  have 2: "\<exists>p \<in> set piece_objects. bound_box (hd ?res) = bound_box p \<and>
        (\<forall>q \<in> set piece_objects. bbox_area q \<le> bbox_area p)"
    using hd_in hd_max by (intro bexI[of _ "hd ?sorted"]) (simp_all add: hd_res s)
  have 3: "world_min_x (hd ?res) = 0" "world_min_y (hd ?res) = 0"
    using world_move_to[OF y0, of ?st] by (simp_all add: hd_res)
  have 4: "successively (\<lambda>a b. next_in_row gap a b \<or> wrapped gap a b) ?res"
    unfolding res by (rule place_successive[OF assms(2) orig])
  have 5: "sorted_wrt (\<lambda>a b. \<not> boxes_overlap a b) ?res"
    unfolding res by (rule place_no_overlap[OF assms(2) _ orig]) simp
  from 1 2 3 4 5 show ?thesis by blast
qed

lemma unit_min_max:
  "list_min (bb_xs \<lparr> bound_box = unit_box w h, obj_location = l \<rparr>) = min 0 w"
  "list_max (bb_xs \<lparr> bound_box = unit_box w h, obj_location = l \<rparr>) = max 0 w"
  "list_min (bb_ys \<lparr> bound_box = unit_box w h, obj_location = l \<rparr>) = min 0 h"
  "list_max (bb_ys \<lparr> bound_box = unit_box w h, obj_location = l \<rparr>) = max 0 h"
  by (simp_all add: unit_box_def bb_xs_def bb_ys_def list_min_def list_max_def)

lemma areas: "bbox_area piece3 = 3" "bbox_area piece1 = 1" "bbox_area piece2 = 2"
  "bbox_area piece1_moved = 1"
  by (simp_all add: bbox_area_def piece3_def piece1_def piece2_def piece1_moved_def unit_min_max)

theorem layout_pieces_shelf_at_origin_witness:
  "[piece1, piece3, piece2] \<noteq> [] \<and> (0::real) \<le> 1 \<and>
   at_origin piece1 \<and> at_origin piece3 \<and> at_origin piece2 \<and>
   map obj_location (layout_pieces_shelf ''RED'' [piece1, piece3, piece2] 1 20)
     = [(0, 0, 0), (4, 0, 0), (7, 0, 0)] \<and>
   world_min_x (hd (layout_pieces_shelf ''RED'' [piece1, piece3, piece2] 1 20)) = 0 \<and>
   world_min_y (hd (layout_pieces_shelf ''RED'' [piece1, piece3, piece2] 1 20)) = 0 \<and>
   sorted_wrt (\<lambda>a b. \<not> boxes_overlap a b)
     (layout_pieces_shelf ''RED'' [piece1, piece3, piece2] 1 20)"
proof -
  have o: "at_origin piece1" "at_origin piece3" "at_origin piece2"
    by (simp_all add: at_origin_def piece1_def piece3_def piece2_def)
  have h: "[piece1, piece3, piece2] \<noteq> []" "(0::real) \<le> 1"
    "\<forall>obj \<in> set [piece1, piece3, piece2]. at_origin obj"
    using o by simp_all
  have l: "layout_pieces_shelf ''RED'' [piece1, piece3, piece2] 1 20 =
      place 1 (20 * 25) \<lparr> cursor_x = 0, cursor_y = 0, row_height = 0 \<rparr> [piece3, piece2, piece1]"
    by (simp add: layout_pieces_shelf_def areas)
  have m: "map obj_location (layout_pieces_shelf ''RED'' [piece1, piece3, piece2] 1 20)
     = [(0, 0, 0), (4, 0, 0), (7, 0, 0)]"
    unfolding l
    by (simp add: place_Cons wrap_state_def move_to_def advance_def
      width_def height_def piece3_def piece1_def piece2_def unit_min_max)
  from layout_pieces_shelf_at_origin[OF h, of "''RED''" 20] o h(1,2) m show ?thesis by blast
qed

text \<open>
  Claim C9 as the specification states it, for every list of pieces, fails, because the
  loop moves each piece relative to where it is. A single 1 by 1 piece whose location is
  \<open>(-3, 0, 0)\<close> ends with its minimum corner at \<open>x = -3\<close>, not at \<open>(0, 0)\<close>. And with
  gap 1, a 2 by 1 piece at the origin followed by a 1 by 1 piece located at \<open>(-3, 0, 0)\<close>
  end on top of each other: both bounding boxes start at \<open>(0, 0)\<close>.
\<close>

theorem layout_pieces_shelf_counterexample:
  "world_min_x (hd (layout_pieces_shelf ''RED'' [piece1_moved] 1 20)) = - 3 \<and>
   map world_min_x (layout_pieces_shelf ''RED'' [piece2, piece1_moved] 1 20) = [0, 0] \<and>
   map world_min_y (layout_pieces_shelf ''RED'' [piece2, piece1_moved] 1 20) = [0, 0] \<and>
   boxes_overlap (layout_pieces_shelf ''RED'' [piece2, piece1_moved] 1 20 ! 0)
                 (layout_pieces_shelf ''RED'' [piece2, piece1_moved] 1 20 ! 1)"
proof -
  have l1: "layout_pieces_shelf ''RED'' [piece1_moved] 1 20 =
      place 1 (20 * 25) \<lparr> cursor_x = 0, cursor_y = 0, row_height = 0 \<rparr> [piece1_moved]"
    by (simp add: layout_pieces_shelf_def)
  have l2: "layout_pieces_shelf ''RED'' [piece2, piece1_moved] 1 20 =
      place 1 (20 * 25) \<lparr> cursor_x = 0, cursor_y = 0, row_height = 0 \<rparr> [piece2, piece1_moved]"
    by (simp add: layout_pieces_shelf_def areas)
  show ?thesis
    unfolding l1 l2
    by (simp add: place_Cons wrap_state_def move_to_def advance_def boxes_overlap_def
      world_min_x_def world_max_x_def world_min_y_def world_max_y_def
      width_def height_def piece2_def piece1_moved_def unit_min_max)
qed

end
